theory Spec2Isabelle
  imports Main "HOL-Library.Word" "HOL-Library.Signed_Division"
begin

section \<open>Go integers\<close>

text \<open>
  The money type has a 64-bit signed units field and a 32-bit signed nanos field.
  Go's \<open>+\<close>, \<open>-\<close> and \<open>*\<close> on them wrap around (two's complement), comparisons are
  signed, and \<open>/\<close> and \<open>%\<close> truncate towards zero. A division whose divisor is zero
  panics at run time; the minimum value divided by \<open>-1\<close> wraps to the minimum value.
\<close>

type_synonym int64 = "64 word"
type_synonym int32 = "32 word"
type_synonym uint32 = "32 word"

text \<open>Go's \<open>/\<close> and \<open>%\<close> for a divisor that is known not to be zero.\<close>

definition quo :: "'a::len word \<Rightarrow> 'a word \<Rightarrow> 'a word" where
  "quo a b = word_of_int (sint a sdiv sint b)"

definition rem :: "'a::len word \<Rightarrow> 'a word \<Rightarrow> 'a word" where
  "rem a b = word_of_int (sint a smod sint b)"

section \<open>The money value and the two errors\<close>

record Money =
  Units :: int64
  Nanos :: int32
  CurrencyCode :: string

text \<open>
  The functions take and return pointers to money values; the model passes the values
  themselves. (The getters read a nil pointer as the value with every field zero; the
  fast-path functions read the fields directly.)

  \<open>&pb.Money{}\<close>: every field at its zero value.
\<close>

definition Money_empty :: Money where
  "Money_empty = \<lparr>Units = 0, Nanos = 0, CurrencyCode = ''''\<rparr>"

datatype error = ErrInvalidValue | ErrMismatchingCurrency

text \<open>
  What stops a call instead of returning: \<open>Must\<close> panics with the error it is given,
  and the run time panics on an integer division by zero.
\<close>

datatype panic = PanicError error | IntegerDivideByZero

definition nanosMin :: int32 where "nanosMin = - 999999999"
definition nanosMax :: int32 where "nanosMax = 999999999"
definition nanosMod :: int32 where "nanosMod = 1000000000"

section \<open>Predicates\<close>

definition signMatches :: "Money \<Rightarrow> bool" where
  "signMatches m \<longleftrightarrow> Nanos m = 0 \<or> Units m = 0 \<or> (Nanos m <s 0) = (Units m <s 0)"

definition validNanos :: "int32 \<Rightarrow> bool" where
  "validNanos nanos \<longleftrightarrow> nanosMin \<le>s nanos \<and> nanos \<le>s nanosMax"

definition IsValid :: "Money \<Rightarrow> bool" where
  "IsValid m \<longleftrightarrow> signMatches m \<and> validNanos (Nanos m)"

definition IsZero :: "Money \<Rightarrow> bool" where
  "IsZero m \<longleftrightarrow> Units m = 0 \<and> Nanos m = 0"

text \<open>Go's \<open>&&\<close> binds tighter than \<open>||\<close>, and so does \<open>\<and>\<close> over \<open>\<or>\<close> here.\<close>

definition IsPositive :: "Money \<Rightarrow> bool" where
  "IsPositive m \<longleftrightarrow> IsValid m \<and> 0 <s Units m \<or> (Units m = 0 \<and> 0 <s Nanos m)"

definition IsNegative :: "Money \<Rightarrow> bool" where
  "IsNegative m \<longleftrightarrow> IsValid m \<and> Units m <s 0 \<or> (Units m = 0 \<and> Nanos m <s 0)"

definition AreSameCurrency :: "Money \<Rightarrow> Money \<Rightarrow> bool" where
  "AreSameCurrency l r \<longleftrightarrow> CurrencyCode l = CurrencyCode r \<and> CurrencyCode l \<noteq> ''''"

definition AreEquals :: "Money \<Rightarrow> Money \<Rightarrow> bool" where
  "AreEquals l r \<longleftrightarrow>
     CurrencyCode l = CurrencyCode r \<and> Units l = Units r \<and> Nanos l = Nanos r"

section \<open>Negation and addition\<close>

definition Negate :: "Money \<Rightarrow> Money" where
  "Negate m = \<lparr>Units = - Units m, Nanos = - Nanos m, CurrencyCode = CurrencyCode m\<rparr>"

text \<open>\<open>Must\<close> takes the pair a call returned and panics when its error is set.\<close>

definition Must :: "Money \<times> error option \<Rightarrow> panic + Money" where
  "Must p = (case snd p of Some err \<Rightarrow> Inl (PanicError err) | None \<Rightarrow> Inr (fst p))"

text \<open>
  \<open>Sum\<close> returns a pair, as the Go function does: the value and the error, which is
  \<open>None\<close> for Go's \<open>nil\<close>.
\<close>

definition Sum :: "Money \<Rightarrow> Money \<Rightarrow> Money \<times> error option" where
  "Sum l r =
     (if \<not> IsValid l \<or> \<not> IsValid r then (Money_empty, Some ErrInvalidValue)
      else if CurrencyCode l \<noteq> CurrencyCode r then (Money_empty, Some ErrMismatchingCurrency)
      else
        let units = Units l + Units r;
            nanos = Nanos l + Nanos r;
            (units, nanos) =
              (if (units = 0 \<and> nanos = 0) \<or> (0 <s units \<and> 0 \<le>s nanos)
                    \<or> (units <s 0 \<and> nanos \<le>s 0)
               then (units + scast (quo nanos nanosMod), rem nanos nanosMod)
               else if 0 <s units then (units - 1, nanos + nanosMod)
               else (units + 1, nanos - nanosMod))
        in (\<lparr>Units = units, Nanos = nanos, CurrencyCode = CurrencyCode l\<rparr>, None))"

section \<open>Multiplication and division by repeated addition\<close>

function MultiplyInt_loop :: "Money \<Rightarrow> Money \<Rightarrow> uint32 \<Rightarrow> panic + Money" where
  "MultiplyInt_loop out m n =
     (if 1 < n
      then (case Must (Sum out m) of
              Inl p \<Rightarrow> Inl p
            | Inr out' \<Rightarrow> MultiplyInt_loop out' m (n - 1))
      else Inr out)"
  by pat_completeness auto
termination
  by (relation "measure (\<lambda>(out, m, n). unat n)") (auto simp: unat_sub word_le_nat_alt word_less_nat_alt)

definition MultiplyInt :: "Money \<Rightarrow> uint32 \<Rightarrow> panic + Money" where
  "MultiplyInt m n = MultiplyInt_loop m m n"

function DivideInt_loop :: "Money \<Rightarrow> Money \<Rightarrow> uint32 \<Rightarrow> panic + Money" where
  "DivideInt_loop out m n =
     (if 1 < n
      then (case Must (Sum out m) of
              Inl p \<Rightarrow> Inl p
            | Inr out' \<Rightarrow> DivideInt_loop out' m (n - 1))
      else Inr out)"
  by pat_completeness auto
termination
  by (relation "measure (\<lambda>(out, m, n). unat n)") (auto simp: unat_sub word_le_nat_alt word_less_nat_alt)

definition DivideInt :: "Money \<Rightarrow> uint32 \<Rightarrow> panic + Money" where
  "DivideInt m n = DivideInt_loop (Negate m) m n"

text \<open>
  The two loops are unfolded one step at a time, where a proof asks for it, and not
  by the simplifier on its own.
\<close>

declare MultiplyInt_loop.simps [simp del] DivideInt_loop.simps [simp del]

section \<open>The fast path\<close>

definition unitsAndNanoPartToMicros :: "int64 \<Rightarrow> int32 \<Rightarrow> int64" where
  "unitsAndNanoPartToMicros units nanos = units * 100 + scast (quo nanos 10000000)"

definition microsToUnitsAndNanoPart :: "int64 \<Rightarrow> int64 \<times> int32" where
  "microsToUnitsAndNanoPart micros = (quo micros 10000, scast (rem micros 10000) * 100000)"

definition toGoogleMoney :: "int64 \<Rightarrow> string \<Rightarrow> Money" where
  "toGoogleMoney valueMicros currencyCode =
     (let (units, nanoPart) = microsToUnitsAndNanoPart valueMicros
      in \<lparr>Units = units, Nanos = nanoPart, CurrencyCode = currencyCode\<rparr>)"

definition MultipleFast :: "Money \<Rightarrow> Money \<Rightarrow> Money" where
  "MultipleFast l r =
     (let lr = unitsAndNanoPartToMicros (Units l) (Nanos l);
          rr = unitsAndNanoPartToMicros (Units r) (Nanos r);
          ln = lr * rr
      in toGoogleMoney ln (CurrencyCode l))"

definition DivideFast :: "Money \<Rightarrow> Money \<Rightarrow> panic + Money" where
  "DivideFast l r =
     (let lr = unitsAndNanoPartToMicros (Units l) (Nanos l);
          rr = unitsAndNanoPartToMicros (Units r) (Nanos r)
      in if rr = 0 then Inl IntegerDivideByZero
         else let ln = quo lr rr in Inr (toGoogleMoney ln (CurrencyCode l)))"

definition DivideFastInt :: "Money \<Rightarrow> int64 \<Rightarrow> panic + Money" where
  "DivideFastInt l r =
     (let lr = unitsAndNanoPartToMicros (Units l) (Nanos l)
      in if r = 0 then Inl IntegerDivideByZero
         else let ln = quo lr r in Inr (toGoogleMoney ln (CurrencyCode l)))"

definition MultipleFastInt :: "Money \<Rightarrow> int64 \<Rightarrow> Money" where
  "MultipleFastInt l r =
     (let lr = unitsAndNanoPartToMicros (Units l) (Nanos l);
          ln = lr * r
      in toGoogleMoney ln (CurrencyCode l))"

definition ToInt :: "Money \<Rightarrow> int64" where
  "ToInt l = unitsAndNanoPartToMicros (Units l) (Nanos l)"

section \<open>Formatting\<close>

text \<open>
  \<open>strconv.Itoa\<close>: the decimal digits of an integer, most significant first, with a
  leading minus sign for a negative one.
\<close>

definition digit_char :: "nat \<Rightarrow> char" where
  "digit_char d = ''0123456789'' ! d"

fun digits :: "nat \<Rightarrow> string" where
  "digits n = (if n < 10 then [digit_char n] else digits (n div 10) @ [digit_char (n mod 10)])"

definition Itoa :: "int \<Rightarrow> string" where
  "Itoa i = (if i < 0 then CHR ''-'' # digits (nat (- i)) else digits (nat i))"

text \<open>\<open>strings.TrimRight\<close>: drops every trailing character that occurs in the cutset.\<close>

definition TrimRight :: "string \<Rightarrow> string \<Rightarrow> string" where
  "TrimRight s cutset = rev (dropWhile (\<lambda>c. c \<in> set cutset) (rev s))"

text \<open>
  The operands of \<open>fmt.Sprintf\<close> that occur here, and what the verb \<open>%d\<close> prints for
  each. For an integer it prints the decimal digits. A string is the wrong type for
  \<open>%d\<close>, and the package \<open>fmt\<close> then prints \<open>%!d(string=\<close>, the operand and \<open>)\<close>
  (its documentation: ``Wrong type or unknown verb: \<open>%!verb(type=value)\<close>'', with the
  example of \<open>Printf("%d", "hi")\<close> printing \<open>%!d(string=hi)\<close>).
\<close>

datatype operand = IntOperand int | StringOperand string

fun verb_d :: "operand \<Rightarrow> string" where
  "verb_d (IntOperand i) = Itoa i"
| "verb_d (StringOperand s) = ''%!d(string='' @ s @ '')''"

text \<open>\<open>fmt.Sprintf("%d.%d", a, b)\<close>.\<close>

definition Sprintf_d_dot_d :: "operand \<Rightarrow> operand \<Rightarrow> string" where
  "Sprintf_d_dot_d a b = verb_d a @ ''.'' @ verb_d b"

definition ToStringDollars :: "Money \<Rightarrow> string" where
  "ToStringDollars l =
     (let nanos = Itoa (sint (Nanos l));
          nanos = TrimRight nanos ''0'';
          nanos = (if nanos = '''' then ''00''
                   else if length nanos = 1 then nanos @ ''0''
                   else nanos)
      in Sprintf_d_dot_d (IntOperand (sint (Units l))) (StringOperand nanos))"

section \<open>The represented value\<close>

text \<open>
  The value a money value stands for, \<open>units + nanos / 1000000000\<close> units, counted
  in nanos (billionths of a unit) so that it is an integer.
\<close>

definition nanos_value :: "Money \<Rightarrow> int" where
  "nanos_value m = sint (Units m) * 1000000000 + sint (Nanos m)"

section \<open>Reading the machine arithmetic as integers\<close>

lemma validNanos_sint: "validNanos n \<longleftrightarrow> - 999999999 \<le> sint n \<and> sint n \<le> 999999999"
  by (simp add: validNanos_def nanosMin_def nanosMax_def word_sle_eq)

lemma abs_div_le: "0 < b \<Longrightarrow> \<bar>a\<bar> div b \<le> \<bar>a\<bar>" for a b :: int
  using zdiv_mono2 [of "\<bar>a\<bar>" 1 b] by simp

text \<open>A truncating quotient by a positive divisor lies between zero and the dividend.\<close>

lemma sdiv_pos_divisor:
  fixes a b :: int
  assumes "0 < b"
  shows "(0 \<le> a \<longrightarrow> 0 \<le> a sdiv b \<and> a sdiv b \<le> a) \<and> (a \<le> 0 \<longrightarrow> a \<le> a sdiv b \<and> a sdiv b \<le> 0)"
proof -
  have "\<bar>a\<bar> div b \<le> \<bar>a\<bar>" "0 \<le> \<bar>a\<bar> div b"
    using assms by (simp_all add: abs_div_le pos_imp_zdiv_nonneg_iff)
  then show ?thesis
    using assms by (auto simp: signed_divide_int_def sgn_if)
qed

lemma smod_pos_divisor: "0 < b \<Longrightarrow> - b < a smod b \<and> a smod b < b" for a b :: int
  using smod_int_range [where a=a and b=b] by simp

text \<open>With a positive divisor neither \<open>/\<close> nor \<open>%\<close> can overflow.\<close>

lemma sint_quo:
  fixes a b :: "'a::len word"
  assumes "0 < sint b"
  shows "sint (quo a b) = sint a sdiv sint b"
proof -
  have "- (2 ^ (LENGTH('a) - 1)) \<le> sint a sdiv sint b" "sint a sdiv sint b < 2 ^ (LENGTH('a) - 1)"
    using sdiv_pos_divisor [OF assms, of "sint a"] sint_ge [of a] sint_lt [of a]
    by (cases "0 \<le> sint a"; linarith)+
  then show ?thesis
    unfolding quo_def sint_sbintrunc' by (rule signed_take_bit_int_eq_self)
qed

lemma sint_rem:
  fixes a b :: "'a::len word"
  assumes "0 < sint b"
  shows "sint (rem a b) = sint a smod sint b"
proof -
  have "- sint b < sint a smod sint b" "sint a smod sint b < sint b"
    using smod_pos_divisor [OF assms, of "sint a"] by simp_all
  then have "- (2 ^ (LENGTH('a) - 1)) \<le> sint a smod sint b" "sint a smod sint b < 2 ^ (LENGTH('a) - 1)"
    using sint_ge [of b] sint_lt [of b] by linarith+
  then show ?thesis
    unfolding rem_def sint_sbintrunc' by (rule signed_take_bit_int_eq_self)
qed

text \<open>The conversion \<open>int64(x)\<close> of a 32-bit value keeps its signed value.\<close>

lemma sint_scast_up: "sint (scast (w :: int32) :: int64) = sint w"
  by (simp add: sint_up_scast is_up)

lemma stb_add_left:
  "signed_take_bit n (signed_take_bit n k + l) = signed_take_bit n (k + l)" for k l :: int
  by (metis signed_take_bit_add add.assoc signed_take_bit_of_0 add_0)

lemma sint_encode:
  "sint (unitsAndNanoPartToMicros units nanos)
     = signed_take_bit 63 (sint units * 100 + sint nanos sdiv 10000000)"
  by (simp add: unitsAndNanoPartToMicros_def sint_word_add sint_word_mult sint_scast_up sint_quo
      stb_add_left)

lemma sint_decode_units: "sint (fst (microsToUnitsAndNanoPart micros)) = sint micros sdiv 10000"
  by (simp add: microsToUnitsAndNanoPart_def sint_quo)

lemma sint_decode_nanos:
  "sint (snd (microsToUnitsAndNanoPart micros)) = (sint micros smod 10000) * 100000"
proof -
  let ?r = "sint micros smod 10000"
  have r: "- 10000 < ?r" "?r < 10000"
    using smod_pos_divisor [of 10000 "sint micros"] by simp_all
  have "sint (scast (rem micros 10000) :: int32) = ?r"
    using r by (simp add: signed_scast_eq sint_rem signed_take_bit_int_eq_self)
  moreover have "- (2 ^ 31) \<le> ?r * 100000" "?r * 100000 < 2 ^ 31"
    using r by simp_all
  ultimately show ?thesis
    by (simp add: microsToUnitsAndNanoPart_def sint_word_mult signed_take_bit_int_eq_self)
qed

text \<open>Validity and negation, read on the signed values of the fields.\<close>

lemma IsValid_sint:
  "IsValid m \<longleftrightarrow>
     (sint (Nanos m) = 0 \<or> sint (Units m) = 0 \<or> (sint (Nanos m) < 0) = (sint (Units m) < 0)) \<and>
     - 999999999 \<le> sint (Nanos m) \<and> sint (Nanos m) \<le> 999999999"
  by (simp add: IsValid_def signMatches_def validNanos_sint word_sless_alt signed_eq_0_iff)

lemma sint_minus_nanos:
  "- 999999999 \<le> sint (n :: int32) \<Longrightarrow> sint n \<le> 999999999 \<Longrightarrow> sint (- n) = - sint n"
  by (simp add: sint_word_minus signed_take_bit_int_eq_self)

lemma int64_min_sint: "(u :: int64) = - 9223372036854775808 \<longleftrightarrow> sint u = - 9223372036854775808"
proof
  assume "u = - 9223372036854775808"
  then show "sint u = - 9223372036854775808" by simp
next
  assume "sint u = - 9223372036854775808"
  then have "sint u = sint (- 9223372036854775808 :: int64)" by simp
  then show "u = - 9223372036854775808" by (rule signed_word_eqI)
qed

lemma sint_minus_units:
  "(u :: int64) \<noteq> - 9223372036854775808 \<Longrightarrow> sint (- u) = - sint u"
proof -
  assume "u \<noteq> - 9223372036854775808"
  then have "sint u \<noteq> - 9223372036854775808" by (simp add: int64_min_sint)
  then have "- (2 ^ 63) \<le> - sint u" "- sint u < 2 ^ 63"
    using sint_ge [of u] sint_lt [of u] by simp_all
  then show ?thesis
    by (simp add: sint_word_minus signed_take_bit_int_eq_self)
qed

lemma IsValid_Negate:
  assumes "IsValid a"
  shows "IsValid (Negate a) \<longleftrightarrow> Units a \<noteq> - 9223372036854775808 \<or> Nanos a = 0"
proof (cases "Units a = - 9223372036854775808")
  case True
  then have "- Units a = - 9223372036854775808" by simp
  with True assms show ?thesis
    by (auto simp: IsValid_sint Negate_def sint_minus_nanos signed_eq_0_iff)
next
  case False
  with assms show ?thesis
    by (auto simp: IsValid_sint Negate_def sint_minus_nanos sint_minus_units)
qed

text \<open>
  Wrapping to 64 bits changes the units by a multiple of \<open>2 ^ 64\<close>, and so the value in
  nanos by a multiple of \<open>2 ^ 64 * 1000000000\<close>.
\<close>

lemma stb64_shift: "\<exists>k. signed_take_bit 63 x = x + k * 2 ^ 64" for x :: int
proof -
  have "take_bit 64 (signed_take_bit 63 x) = take_bit 64 x"
    by (simp add: take_bit_signed_take_bit)
  then have "(signed_take_bit 63 x - x) mod 2 ^ 64 = 0"
    by (simp add: take_bit_eq_mod mod_eq_0_iff_dvd mod_eq_dvd_iff)
  then obtain k where "signed_take_bit 63 x - x = 2 ^ 64 * k"
    by (auto simp: mod_eq_0_iff_dvd)
  then have "signed_take_bit 63 x = x + k * 2 ^ 64" by simp
  then show ?thesis ..
qed

lemma stb_scaled:
  "(signed_take_bit 63 x * 1000000000 + y) mod (2 ^ 64 * 1000000000)
     = (x * 1000000000 + y) mod (2 ^ 64 * 1000000000)" for x y :: int
proof -
  obtain k where "signed_take_bit 63 x = x + k * 2 ^ 64"
    using stb64_shift by blast
  then have "signed_take_bit 63 x * 1000000000 + y
               = (x * 1000000000 + y) + k * (2 ^ 64 * 1000000000)"
    by (simp add: algebra_simps)
  then show ?thesis
    by (simp only: mod_mult_self1)
qed

lemma Sum_None_valid:
  "Sum l r = (s, None) \<Longrightarrow> IsValid l \<and> IsValid r \<and> CurrencyCode l = CurrencyCode r"
  by (auto simp: Sum_def split: if_splits)

lemma sint_nanos_sum:
  assumes "IsValid l" "IsValid r"
  shows "sint (Nanos l + Nanos r) = sint (Nanos l) + sint (Nanos r)"
proof -
  have "- (2 ^ 31) \<le> sint (Nanos l) + sint (Nanos r)" "sint (Nanos l) + sint (Nanos r) < 2 ^ 31"
    using assms by (simp_all add: IsValid_sint)
  then show ?thesis
    by (simp add: sint_word_add signed_take_bit_int_eq_self)
qed


lemma stb_diff_left:
  "signed_take_bit n (signed_take_bit n k - l) = signed_take_bit n (k - l)" for k l :: int
  using stb_add_left [of n k "- l"] by simp

lemma stb31_below:
  fixes x :: int
  assumes "x < - (2 ^ 31)" "- 3000000000 \<le> x"
  shows "signed_take_bit 31 x = x + 2 ^ 32"
proof -
  have "signed_take_bit 31 (x + 2 ^ 32) = x + 2 ^ 32"
    using assms by (intro signed_take_bit_int_eq_self) simp_all
  moreover have "signed_take_bit 31 (x + 2 ^ 32) = signed_take_bit 31 x"
    by (simp add: signed_take_bit_eq_iff_take_bit_eq take_bit_eq_mod)
  ultimately show ?thesis by simp
qed

lemma Sum_value:
  assumes sum: "Sum l r = (s, None)" and valid: "validNanos (Nanos s)"
  shows "nanos_value s mod (2 ^ 64 * 1000000000)
           = (nanos_value l + nanos_value r) mod (2 ^ 64 * 1000000000)"
proof -
  have v: "IsValid l" "IsValid r" "CurrencyCode l = CurrencyCode r"
    using Sum_None_valid [OF sum] by simp_all
  define U where "U = sint (Units l) + sint (Units r)"
  define N where "N = sint (Nanos l) + sint (Nanos r)"
  let ?u = "Units l + Units r" and ?n = "Nanos l + Nanos r"
  have n: "sint ?n = N"
    using sint_nanos_sum [OF v(1,2)] by (simp add: N_def)
  have n': "signed_take_bit 31 (sint (Nanos l) + sint (Nanos r)) = N"
    using n by (simp add: sint_word_add)
  have u': "sint (Units l) + sint (Units r) = U"
    by (simp add: U_def)
  have Nb: "- 1999999998 \<le> N" "N \<le> 1999999998"
    using v by (simp_all add: IsValid_sint N_def)
  have md: "sint nanosMod = 1000000000"
    by (simp add: nanosMod_def)
  have total: "nanos_value l + nanos_value r = U * 1000000000 + N"
    by (simp add: nanos_value_def U_def N_def algebra_simps)
  let ?same = "(?u = 0 \<and> ?n = 0) \<or> (0 <s ?u \<and> 0 \<le>s ?n) \<or> (?u <s 0 \<and> ?n \<le>s 0)"
  consider (same) ?same | (borrow) "\<not> ?same" "0 <s ?u" | (carry) "\<not> ?same" "\<not> 0 <s ?u"
    by blast
  then show ?thesis
  proof cases
    case same
    then have s: "s = \<lparr>Units = ?u + scast (quo ?n nanosMod), Nanos = rem ?n nanosMod,
                         CurrencyCode = CurrencyCode l\<rparr>"
      using sum v by (simp add: Sum_def Let_def)
    have "sint (Units s) = signed_take_bit 63 (U + N sdiv 1000000000)"
      by (simp add: s sint_word_add sint_scast_up sint_quo md n' u' stb_add_left)
    moreover have "sint (Nanos s) = N smod 1000000000"
      by (simp add: s sint_rem md sint_word_add n')
    moreover have "(U + N sdiv 1000000000) * 1000000000 + N smod 1000000000
                     = U * 1000000000 + N"
      using sdiv_mult_smod_eq [of N 1000000000] by (simp add: algebra_simps)
    ultimately have "nanos_value s mod (2 ^ 64 * 1000000000)
                       = (U * 1000000000 + N) mod (2 ^ 64 * 1000000000)"
      by (simp only: nanos_value_def stb_scaled)
    then show ?thesis
      by (simp only: total)
  next
    case borrow
    then have s: "s = \<lparr>Units = ?u - 1, Nanos = ?n + nanosMod, CurrencyCode = CurrencyCode l\<rparr>"
      using sum v by (auto simp: Sum_def Let_def word_sless_alt word_sle_eq split: if_splits)
    have "N < 0"
      using borrow n by (auto simp: word_sle_eq)
    then have "sint (Nanos s) = N + 1000000000"
      using Nb by (simp add: s sint_word_add n' md stb_add_left signed_take_bit_int_eq_self)
    moreover have "sint (Units s) = signed_take_bit 63 (U - 1)"
      by (simp add: s sint_word_diff sint_word_add u' stb_diff_left)
    moreover have "(U - 1) * 1000000000 + (N + 1000000000) = U * 1000000000 + N"
      by (simp add: algebra_simps)
    ultimately have "nanos_value s mod (2 ^ 64 * 1000000000)
                       = (U * 1000000000 + N) mod (2 ^ 64 * 1000000000)"
      by (simp only: nanos_value_def stb_scaled)
    then show ?thesis
      by (simp only: total)
  next
    case carry
    then have s: "s = \<lparr>Units = ?u + 1, Nanos = ?n - nanosMod, CurrencyCode = CurrencyCode l\<rparr>"
      using sum v by (auto simp: Sum_def Let_def word_sless_alt word_sle_eq split: if_splits)
    have raw: "sint (Nanos s) = signed_take_bit 31 (N - 1000000000)"
      by (simp add: s sint_word_diff sint_word_add n' md)
    have "- (2 ^ 31) \<le> N - 1000000000"
    proof (rule ccontr)
      assume "\<not> - (2 ^ 31) \<le> N - 1000000000"
      then have "signed_take_bit 31 (N - 1000000000) = N - 1000000000 + 2 ^ 32"
        using Nb by (intro stb31_below) simp_all
      then have "999999999 < sint (Nanos s)"
        using Nb raw by simp
      then show False
        using valid by (simp add: validNanos_sint)
    qed
    then have "sint (Nanos s) = N - 1000000000"
      using Nb raw by (simp add: signed_take_bit_int_eq_self)
    moreover have "sint (Units s) = signed_take_bit 63 (U + 1)"
      by (simp add: s sint_word_add u' stb_add_left)
    moreover have "(U + 1) * 1000000000 + (N - 1000000000) = U * 1000000000 + N"
      by (simp add: algebra_simps)
    ultimately have "nanos_value s mod (2 ^ 64 * 1000000000)
                       = (U * 1000000000 + N) mod (2 ^ 64 * 1000000000)"
      by (simp only: nanos_value_def stb_scaled)
    then show ?thesis
      by (simp only: total)
  qed
qed

text \<open>
  The loop of \<open>DivideInt\<close>: one step, the validity of the accumulator, and the value
  after the loop.
\<close>

lemma Must_Inr: "Must p = Inr x \<longleftrightarrow> p = (x, None)"
  by (cases p) (auto simp: Must_def split: option.splits)

lemma DivideInt_loop_step:
  "1 < n \<Longrightarrow> DivideInt_loop out m n
     = (case Must (Sum out m) of Inl p \<Rightarrow> Inl p | Inr out' \<Rightarrow> DivideInt_loop out' m (n - 1))"
  by (subst DivideInt_loop.simps) simp

lemma DivideInt_loop_stop: "\<not> 1 < n \<Longrightarrow> DivideInt_loop out m n = Inr out"
  by (subst DivideInt_loop.simps) simp

lemma DivideInt_loop_valid_acc:
  assumes "DivideInt_loop out m n = Inr res" "validNanos (Nanos res)"
  shows "validNanos (Nanos out)"
proof (cases "1 < n")
  case True
  with assms(1) obtain out' where "Sum out m = (out', None)"
    by (auto simp: DivideInt_loop_step Must_Inr split: sum.splits)
  then show ?thesis
    using Sum_None_valid by (auto simp: IsValid_def)
next
  case False
  with assms show ?thesis by (simp add: DivideInt_loop_stop)
qed

lemma DivideInt_loop_value:
  "DivideInt_loop out m n = Inr res \<Longrightarrow> validNanos (Nanos res) \<Longrightarrow>
     nanos_value res mod (2 ^ 64 * 1000000000)
       = (nanos_value out + int (unat n - 1) * nanos_value m) mod (2 ^ 64 * 1000000000)"
proof (induction out m n rule: DivideInt_loop.induct)
  case (1 out m n)
  show ?case
  proof (cases "1 < n")
    case True
    with "1.prems"(1) obtain out' where
      step: "Must (Sum out m) = Inr out'" and rest: "DivideInt_loop out' m (n - 1) = Inr res"
      by (auto simp: DivideInt_loop_step split: sum.splits)
    have "validNanos (Nanos out')"
      using DivideInt_loop_valid_acc [OF rest "1.prems"(2)] .
    then have "nanos_value out' mod (2 ^ 64 * 1000000000)
                 = (nanos_value out + nanos_value m) mod (2 ^ 64 * 1000000000)"
      using step by (intro Sum_value) (simp_all add: Must_Inr)
    then have "(nanos_value out' + int (unat (n - 1) - 1) * nanos_value m) mod (2 ^ 64 * 1000000000)
                 = (nanos_value out + nanos_value m + int (unat (n - 1) - 1) * nanos_value m)
                     mod (2 ^ 64 * 1000000000)"
      by (rule mod_add_cong) simp
    moreover have "2 \<le> unat n" "unat (n - 1) = unat n - 1"
      using True by (simp_all add: unat_sub word_le_nat_alt word_less_nat_alt)
    then have "nanos_value m + int (unat (n - 1) - 1) * nanos_value m
                 = int (unat n - 1) * nanos_value m"
      by (simp add: algebra_simps)
    ultimately show ?thesis
      using "1.IH" [OF True step rest "1.prems"(2)] by (simp add: add.assoc)
  next
    case False
    then have "unat n - 1 = 0"
      by (simp add: word_less_nat_alt)
    with False "1.prems" show ?thesis by (simp add: DivideInt_loop_stop)
  qed
qed

lemma DivideInt_loop_snoc:
  "1 \<le> n \<Longrightarrow> n + 1 \<noteq> 0 \<Longrightarrow>
     DivideInt_loop out m (n + 1)
       = (case DivideInt_loop out m n of Inl p \<Rightarrow> Inl p | Inr acc \<Rightarrow> Must (Sum acc m))"
proof (induction out m n rule: DivideInt_loop.induct)
  case (1 out m n)
  have un: "unat (n + 1) = unat n + 1"
    using unatSuc [of n] "1.prems"(2) by (simp add: add.commute)
  have more: "1 < n + 1"
    using "1.prems"(1) un by (simp add: word_less_nat_alt word_le_nat_alt)
  show ?case
  proof (cases "1 < n")
    case True
    have "1 \<le> n - 1" "n - 1 + 1 \<noteq> 0"
      using True "1.prems"(2) by (auto simp: word_less_nat_alt word_le_nat_alt unat_sub)
    then have "DivideInt_loop out' m n
                 = (case DivideInt_loop out' m (n - 1) of Inl p \<Rightarrow> Inl p
                    | Inr acc \<Rightarrow> Must (Sum acc m))"
      if "Must (Sum out m) = Inr out'" for out'
      using "1.IH" [OF True that] by simp
    then show ?thesis
      by (simp add: DivideInt_loop_step [OF more] DivideInt_loop_step [OF True] split: sum.splits)
  next
    case False
    then have n: "n = 1"
      using "1.prems"(1) by simp
    show ?thesis
      unfolding n by (simp add: DivideInt_loop.simps split: sum.splits)
  qed
qed

lemma nanos_value_Negate:
  assumes "validNanos (Nanos (Negate m))"
  shows "nanos_value (Negate m) mod (2 ^ 64 * 1000000000)
           = (- nanos_value m) mod (2 ^ 64 * 1000000000)"
proof -
  let ?x = "sint (- Nanos m)"
  have x: "- 999999999 \<le> ?x" "?x \<le> 999999999"
    using assms by (simp_all add: validNanos_sint Negate_def)
  have "sint (Nanos m) = - ?x"
    using sint_minus_nanos [OF x] by simp
  then have "- nanos_value m = (- sint (Units m)) * 1000000000 + ?x"
    by (simp add: nanos_value_def)
  moreover have "nanos_value (Negate m)
                   = signed_take_bit 63 (- sint (Units m)) * 1000000000 + ?x"
    by (simp add: nanos_value_def Negate_def sint_word_minus)
  ultimately show ?thesis
    by (simp only: stb_scaled)
qed

lemma DivideInt_3:
  "DivideInt \<lparr>Units = 1, Nanos = 500000000, CurrencyCode = ''''\<rparr> 3
     = Inr \<lparr>Units = 1, Nanos = 500000000, CurrencyCode = ''''\<rparr>"
  by (simp add: DivideInt_def DivideInt_loop.simps Must_def Sum_def Negate_def IsValid_sint
      Let_def nanosMod_def quo_def rem_def word_sless_alt word_sle_eq
      signed_divide_int_def signed_modulo_int_def)

lemma DivideInt_4:
  "DivideInt \<lparr>Units = 1, Nanos = 500000000, CurrencyCode = ''''\<rparr> 4
     = Inr \<lparr>Units = 3, Nanos = 0, CurrencyCode = ''''\<rparr>"
  by (simp add: DivideInt_def DivideInt_loop.simps Must_def Sum_def Negate_def IsValid_sint
      Let_def nanosMod_def quo_def rem_def word_sless_alt word_sle_eq
      signed_divide_int_def signed_modulo_int_def)

section \<open>The order of the checks of \<open>Sum\<close>\<close>

text \<open>
  Claim C2. \<open>Sum\<close> checks the validity of both operands first: if either fails
  \<open>IsValid\<close> the error is \<open>ErrInvalidValue\<close>. For two valid operands the error is
  \<open>ErrMismatchingCurrency\<close> exactly when the two currency codes differ as strings, and
  there is no error exactly when they are equal; so two empty codes pass, and
  \<open>Sum({0,0,"XXX"}, {0,0,""})\<close> fails with \<open>ErrMismatchingCurrency\<close>. With either
  error the value returned is the empty money value.
\<close>

theorem Sum_error_order:
  "(\<not> IsValid l \<or> \<not> IsValid r \<longrightarrow> Sum l r = (Money_empty, Some ErrInvalidValue)) \<and>
   (IsValid l \<and> IsValid r \<longrightarrow>
      (snd (Sum l r) = Some ErrMismatchingCurrency \<longleftrightarrow> CurrencyCode l \<noteq> CurrencyCode r) \<and>
      (snd (Sum l r) = None \<longleftrightarrow> CurrencyCode l = CurrencyCode r) \<and>
      (CurrencyCode l \<noteq> CurrencyCode r \<longrightarrow> fst (Sum l r) = Money_empty)) \<and>
   (IsValid l \<and> IsValid r \<and> CurrencyCode l = '''' \<and> CurrencyCode r = '''' \<longrightarrow>
      snd (Sum l r) = None) \<and>
   Sum \<lparr>Units = 0, Nanos = 0, CurrencyCode = ''XXX''\<rparr> \<lparr>Units = 0, Nanos = 0, CurrencyCode = ''''\<rparr>
     = (Money_empty, Some ErrMismatchingCurrency)"
  by (simp add: Sum_def Let_def IsValid_def signMatches_def validNanos_sint split: prod.split)

theorem Sum_error_order_witness:
  "Sum \<lparr>Units = 1, Nanos = - 1, CurrencyCode = ''''\<rparr> \<lparr>Units = 0, Nanos = 0, CurrencyCode = ''''\<rparr>
     = (Money_empty, Some ErrInvalidValue) \<and>
   Sum \<lparr>Units = 0, Nanos = 0, CurrencyCode = ''AAA''\<rparr> \<lparr>Units = 0, Nanos = 0, CurrencyCode = ''BBB''\<rparr>
     = (Money_empty, Some ErrMismatchingCurrency) \<and>
   snd (Sum \<lparr>Units = 2, Nanos = 200000000, CurrencyCode = ''''\<rparr>
            \<lparr>Units = 2, Nanos = 900000000, CurrencyCode = ''''\<rparr>) = None"
proof -
  have invalid: "\<not> IsValid \<lparr>Units = 1, Nanos = - 1, CurrencyCode = ''''\<rparr>"
    by (simp add: IsValid_def signMatches_def validNanos_sint word_sless_alt)
  have zero: "IsValid \<lparr>Units = 0, Nanos = 0, CurrencyCode = c\<rparr>" for c
    by (simp add: IsValid_def signMatches_def validNanos_sint)
  have two: "IsValid \<lparr>Units = 2, Nanos = n, CurrencyCode = ''''\<rparr>"
    if "n = 200000000 \<or> n = 900000000" for n
    using that by (auto simp: IsValid_def signMatches_def validNanos_sint word_sless_alt)
  show ?thesis
    using Sum_error_order [of "\<lparr>Units = 1, Nanos = - 1, CurrencyCode = ''''\<rparr>"
                              "\<lparr>Units = 0, Nanos = 0, CurrencyCode = ''''\<rparr>"]
          Sum_error_order [of "\<lparr>Units = 0, Nanos = 0, CurrencyCode = ''AAA''\<rparr>"
                              "\<lparr>Units = 0, Nanos = 0, CurrencyCode = ''BBB''\<rparr>"]
          Sum_error_order [of "\<lparr>Units = 2, Nanos = 200000000, CurrencyCode = ''''\<rparr>"
                              "\<lparr>Units = 2, Nanos = 900000000, CurrencyCode = ''''\<rparr>"]
          invalid zero two
    by (simp add: prod_eq_iff)
qed

section \<open>Commutativity of \<open>Sum\<close>\<close>

text \<open>
  Claim C8. \<open>Sum\<close> is commutative: for every pair of money values, valid or not,
  \<open>Sum(a, b)\<close> and \<open>Sum(b, a)\<close> return the same pair, that is the same value in all
  three fields and the same error.
\<close>

theorem Sum_commutative: "Sum a b = Sum b a"
  by (simp add: Sum_def Let_def add.commute)

theorem Sum_commutative_witness:
  "Sum \<lparr>Units = 2, Nanos = 200000000, CurrencyCode = ''USD''\<rparr>
       \<lparr>Units = - 11, Nanos = - 100000000, CurrencyCode = ''USD''\<rparr>
   = Sum \<lparr>Units = - 11, Nanos = - 100000000, CurrencyCode = ''USD''\<rparr>
         \<lparr>Units = 2, Nanos = 200000000, CurrencyCode = ''USD''\<rparr>"
  by (rule Sum_commutative)

section \<open>Counts that skip the loop\<close>

text \<open>
  Claim C10. For a count \<open>n \<le> 1\<close> (0 or 1) the loop of repeated addition never runs:
  \<open>MultiplyInt(m, n)\<close> returns \<open>m\<close> itself, also for \<open>n = 0\<close>, and \<open>DivideInt(m, n)\<close>
  returns \<open>Negate(m)\<close>.
\<close>

theorem loops_skipped:
  "n \<le> 1 \<Longrightarrow> MultiplyInt m n = Inr m \<and> DivideInt m n = Inr (Negate m)"
  by (simp add: MultiplyInt_def DivideInt_def MultiplyInt_loop.simps DivideInt_loop.simps
      not_less [symmetric])

theorem loops_skipped_witness:
  "(0::uint32) \<le> 1 \<and> (1::uint32) \<le> 1
   \<and> MultiplyInt \<lparr>Units = 5, Nanos = 910000000, CurrencyCode = ''USD''\<rparr> 0
       = Inr \<lparr>Units = 5, Nanos = 910000000, CurrencyCode = ''USD''\<rparr>
   \<and> DivideInt \<lparr>Units = 5, Nanos = 910000000, CurrencyCode = ''USD''\<rparr> 0
       = Inr \<lparr>Units = - 5, Nanos = - 910000000, CurrencyCode = ''USD''\<rparr>
   \<and> MultiplyInt \<lparr>Units = 5, Nanos = 910000000, CurrencyCode = ''USD''\<rparr> 1
       = Inr \<lparr>Units = 5, Nanos = 910000000, CurrencyCode = ''USD''\<rparr>
   \<and> DivideInt \<lparr>Units = 5, Nanos = 910000000, CurrencyCode = ''USD''\<rparr> 1
       = Inr \<lparr>Units = - 5, Nanos = - 910000000, CurrencyCode = ''USD''\<rparr>"
  using loops_skipped [of 0 "\<lparr>Units = 5, Nanos = 910000000, CurrencyCode = ''USD''\<rparr>"]
        loops_skipped [of 1 "\<lparr>Units = 5, Nanos = 910000000, CurrencyCode = ''USD''\<rparr>"]
  by (simp add: Negate_def)

section \<open>A sum that is not valid\<close>

text \<open>
  Claim C1. The claim is that for valid operands with equal currency codes \<open>Sum\<close>
  returns no error and a result that satisfies \<open>IsValid\<close>. The code returns no error,
  but at \<open>Sum({0,1}, {0,1})\<close> the raw units are 0 and the raw nanos are 2: none of the
  three same-sign conditions holds, so the branch for different signs runs, and since
  the units are not positive it adds one unit and subtracts one billion nanos. The
  result \<open>{1, -999999998}\<close> has units and nanos of opposite signs and fails
  \<open>IsValid\<close>.
\<close>

theorem Sum_result_invalid:
  "IsValid \<lparr>Units = 0, Nanos = 1, CurrencyCode = ''''\<rparr> \<and>
   Sum \<lparr>Units = 0, Nanos = 1, CurrencyCode = ''''\<rparr> \<lparr>Units = 0, Nanos = 1, CurrencyCode = ''''\<rparr>
     = (\<lparr>Units = 1, Nanos = - 999999998, CurrencyCode = ''''\<rparr>, None) \<and>
   \<not> IsValid \<lparr>Units = 1, Nanos = - 999999998, CurrencyCode = ''''\<rparr>"
  by (simp add: Sum_def Let_def IsValid_def signMatches_def validNanos_sint word_sless_alt
      word_sle_eq nanosMod_def)

theorem Sum_result_invalid_witness:
  "\<exists>a b. IsValid a \<and> IsValid b \<and> CurrencyCode a = CurrencyCode b \<and> snd (Sum a b) = None
     \<and> \<not> IsValid (fst (Sum a b))"
  using Sum_result_invalid
  by (intro exI [of _ "\<lparr>Units = 0, Nanos = 1, CurrencyCode = ''''\<rparr>"]) simp

section \<open>The sign predicates on a value that is not valid\<close>

text \<open>
  Claim C5. The claim is that \<open>IsPositive\<close> (\<open>IsNegative\<close>) holds exactly for the valid
  values of positive (negative) sign. In the code the test for validity guards only
  the first disjunct: a value with zero units and nanos beyond the range, such as
  \<open>{0, 1000000000}\<close>, is not valid and \<open>IsPositive\<close> still returns true for it, as
  \<open>IsNegative\<close> does for \<open>{0, -1000000000}\<close>.
\<close>

theorem IsPositive_accepts_invalid:
  "IsPositive \<lparr>Units = 0, Nanos = 1000000000, CurrencyCode = ''''\<rparr> \<and>
   \<not> IsValid \<lparr>Units = 0, Nanos = 1000000000, CurrencyCode = ''''\<rparr> \<and>
   IsNegative \<lparr>Units = 0, Nanos = - 1000000000, CurrencyCode = ''''\<rparr> \<and>
   \<not> IsValid \<lparr>Units = 0, Nanos = - 1000000000, CurrencyCode = ''''\<rparr>"
  by (simp add: IsPositive_def IsNegative_def IsValid_def signMatches_def validNanos_sint
      word_sless_alt)

section \<open>The rendered string\<close>

text \<open>
  Claim C3. The claim is that \<open>ToStringDollars\<close> renders \<open>{5, 910000000}\<close> as \<open>5.91\<close> and
  \<open>{5, 0}\<close> as \<open>5.00\<close>. The fraction is computed as the claim says (\<open>91\<close> and \<open>00\<close>), but
  it is a string and the format applies the verb \<open>%d\<close> to it, so the string returned is
  \<open>5.%!d(string=91)\<close>, respectively \<open>5.%!d(string=00)\<close>.
\<close>

theorem ToStringDollars_bad_verb:
  "ToStringDollars \<lparr>Units = 5, Nanos = 910000000, CurrencyCode = ''''\<rparr> = ''5.%!d(string=91)'' \<and>
   ToStringDollars \<lparr>Units = 5, Nanos = 0, CurrencyCode = ''''\<rparr> = ''5.%!d(string=00)''"
  by (simp add: ToStringDollars_def Itoa_def TrimRight_def Sprintf_d_dot_d_def digit_char_def)

section \<open>A zero divisor on the fast path\<close>

text \<open>
  Claim C6, as stated: \<open>DivideFast\<close> and \<open>DivideFastInt\<close> report a zero divisor as an
  error instead of faulting. Neither function has an error result, and both divide
  with Go's \<open>/\<close>: with a zero divisor the call panics.
\<close>

theorem DivideFast_zero_divisor_counterexample:
  "DivideFastInt \<lparr>Units = 1, Nanos = 0, CurrencyCode = ''''\<rparr> 0 = Inl IntegerDivideByZero \<and>
   DivideFast \<lparr>Units = 1, Nanos = 0, CurrencyCode = ''''\<rparr>
              \<lparr>Units = 0, Nanos = 0, CurrencyCode = ''''\<rparr> = Inl IntegerDivideByZero"
  by (simp add: DivideFastInt_def DivideFast_def unitsAndNanoPartToMicros_def quo_def)

text \<open>
  Claim C6, amended. \<open>DivideFastInt\<close> panics with an integer division by zero exactly
  when its divisor is 0, and \<open>DivideFast\<close> exactly when the scaled integer of its
  divisor is 0, which it is for every zero-valued divisor. In every other case they
  return the money value decoded from the truncated quotient of the scaled integers.
\<close>

theorem DivideFast_zero_divisor:
  "(DivideFastInt l d = Inl IntegerDivideByZero \<longleftrightarrow> d = 0) \<and>
   (DivideFast l r = Inl IntegerDivideByZero \<longleftrightarrow> ToInt r = 0) \<and>
   (IsZero r \<longrightarrow> DivideFast l r = Inl IntegerDivideByZero) \<and>
   (d \<noteq> 0 \<longrightarrow> DivideFastInt l d = Inr (toGoogleMoney (quo (ToInt l) d) (CurrencyCode l))) \<and>
   (ToInt r \<noteq> 0 \<longrightarrow> DivideFast l r = Inr (toGoogleMoney (quo (ToInt l) (ToInt r)) (CurrencyCode l)))"
  by (simp add: DivideFastInt_def DivideFast_def ToInt_def Let_def IsZero_def
      unitsAndNanoPartToMicros_def quo_def)

theorem DivideFast_zero_divisor_witness:
  "IsZero \<lparr>Units = 0, Nanos = 0, CurrencyCode = ''USD''\<rparr> \<and>
   DivideFast \<lparr>Units = 5, Nanos = 910000000, CurrencyCode = ''USD''\<rparr>
              \<lparr>Units = 0, Nanos = 0, CurrencyCode = ''USD''\<rparr> = Inl IntegerDivideByZero \<and>
   DivideFastInt \<lparr>Units = 5, Nanos = 910000000, CurrencyCode = ''USD''\<rparr> 0
     = Inl IntegerDivideByZero \<and>
   (3::int64) \<noteq> 0 \<and>
   DivideFastInt \<lparr>Units = 5, Nanos = 910000000, CurrencyCode = ''USD''\<rparr> 3
     = Inr \<lparr>Units = 0, Nanos = 19700000, CurrencyCode = ''USD''\<rparr> \<and>
   ToInt \<lparr>Units = 0, Nanos = 20000000, CurrencyCode = ''USD''\<rparr> \<noteq> 0 \<and>
   DivideFast \<lparr>Units = 5, Nanos = 910000000, CurrencyCode = ''USD''\<rparr>
              \<lparr>Units = 0, Nanos = 20000000, CurrencyCode = ''USD''\<rparr>
     = Inr \<lparr>Units = 0, Nanos = 29500000, CurrencyCode = ''USD''\<rparr>"
  using DivideFast_zero_divisor [of "\<lparr>Units = 5, Nanos = 910000000, CurrencyCode = ''USD''\<rparr>" 0
          "\<lparr>Units = 0, Nanos = 0, CurrencyCode = ''USD''\<rparr>"]
        DivideFast_zero_divisor [of "\<lparr>Units = 5, Nanos = 910000000, CurrencyCode = ''USD''\<rparr>" 3
          "\<lparr>Units = 0, Nanos = 20000000, CurrencyCode = ''USD''\<rparr>"]
  by (simp add: IsZero_def ToInt_def unitsAndNanoPartToMicros_def quo_def toGoogleMoney_def
      microsToUnitsAndNanoPart_def rem_def signed_divide_int_def signed_modulo_int_def)

section \<open>The scale factors of the fast path\<close>

text \<open>
  Claim C7. The encode step computes \<open>units * 100 + nanos / 10000000\<close> with a
  truncating division, in 64-bit arithmetic: its signed value is the integer
  \<open>units * 100 + nanos / 10000000\<close> wrapped to 64 bits, and that integer itself whenever
  it fits. The decode step computes the units \<open>scaled / 10000\<close> and the nanos
  \<open>(scaled % 10000) * 100000\<close>, both truncating and neither overflowing. \<open>ToInt\<close> of a
  money value is the encode step applied to its units and nanos.
\<close>

theorem fast_path_scale_factors:
  "sint (unitsAndNanoPartToMicros units nanos)
     = signed_take_bit 63 (sint units * 100 + sint nanos sdiv 10000000) \<and>
   (- (2 ^ 63) \<le> sint units * 100 + sint nanos sdiv 10000000
      \<and> sint units * 100 + sint nanos sdiv 10000000 < 2 ^ 63
    \<longrightarrow> sint (unitsAndNanoPartToMicros units nanos)
          = sint units * 100 + sint nanos sdiv 10000000) \<and>
   sint (fst (microsToUnitsAndNanoPart micros)) = sint micros sdiv 10000 \<and>
   sint (snd (microsToUnitsAndNanoPart micros)) = (sint micros smod 10000) * 100000 \<and>
   ToInt m = unitsAndNanoPartToMicros (Units m) (Nanos m)"
  by (simp add: sint_encode sint_decode_units sint_decode_nanos ToInt_def
      signed_take_bit_int_eq_self)

theorem fast_path_scale_factors_witness:
  "sint (unitsAndNanoPartToMicros (- 5) (- 919999999)) = - 591 \<and>
   sint (fst (microsToUnitsAndNanoPart (- 12345))) = - 1 \<and>
   sint (snd (microsToUnitsAndNanoPart (- 12345))) = - 234500000 \<and>
   ToInt \<lparr>Units = 5, Nanos = 910000000, CurrencyCode = ''USD''\<rparr> = 591"
  using fast_path_scale_factors [of "- 5" "- 919999999" "- 12345"
      "\<lparr>Units = 5, Nanos = 910000000, CurrencyCode = ''USD''\<rparr>"]
  by (simp add: signed_divide_int_def signed_modulo_int_def unitsAndNanoPartToMicros_def quo_def)

section \<open>A value plus its negation\<close>

text \<open>
  Claim C9, as stated: for every valid \<open>a\<close>, \<open>Sum(a, Negate(a))\<close> succeeds and is zero
  with the currency of \<open>a\<close>. It fails for the valid value with the least 64-bit units
  and negative nanos: negating the units wraps around to the same negative number
  while the nanos become positive, so \<open>Negate(a)\<close> is not valid and \<open>Sum\<close> returns
  \<open>ErrInvalidValue\<close> with the empty value, whose currency code is empty.
\<close>

theorem Sum_Negate_counterexample:
  "IsValid \<lparr>Units = - 9223372036854775808, Nanos = - 1, CurrencyCode = ''USD''\<rparr> \<and>
   Sum \<lparr>Units = - 9223372036854775808, Nanos = - 1, CurrencyCode = ''USD''\<rparr>
       (Negate \<lparr>Units = - 9223372036854775808, Nanos = - 1, CurrencyCode = ''USD''\<rparr>)
     = (\<lparr>Units = 0, Nanos = 0, CurrencyCode = ''''\<rparr>, Some ErrInvalidValue)"
  by (simp add: Sum_def Negate_def Money_empty_def IsValid_def signMatches_def validNanos_sint
      word_sless_alt)

text \<open>
  Claim C9, amended. For every valid \<open>a\<close>, \<open>Sum(a, Negate(a))\<close> succeeds and returns
  units 0 and nanos 0 with the currency code of \<open>a\<close>, unless the units of \<open>a\<close> are the
  least 64-bit integer and its nanos are not zero; in that one case it fails with
  \<open>ErrInvalidValue\<close>.
\<close>

theorem Sum_Negate:
  assumes "IsValid a"
  shows "Sum a (Negate a) =
           (if Units a = - 9223372036854775808 \<and> Nanos a \<noteq> 0
            then (Money_empty, Some ErrInvalidValue)
            else (\<lparr>Units = 0, Nanos = 0, CurrencyCode = CurrencyCode a\<rparr>, None))"
proof (cases "IsValid (Negate a)")
  case True
  have "CurrencyCode (Negate a) = CurrencyCode a" "Units a + Units (Negate a) = 0"
    "Nanos a + Nanos (Negate a) = 0"
    by (simp_all add: Negate_def)
  with True assms IsValid_Negate [OF assms] show ?thesis
    by (simp add: Sum_def quo_def rem_def)
next
  case False
  with assms IsValid_Negate [OF assms] show ?thesis
    by (simp add: Sum_def)
qed

theorem Sum_Negate_witness:
  "IsValid \<lparr>Units = - 5, Nanos = - 910000000, CurrencyCode = ''USD''\<rparr> \<and>
   Sum \<lparr>Units = - 5, Nanos = - 910000000, CurrencyCode = ''USD''\<rparr>
       (Negate \<lparr>Units = - 5, Nanos = - 910000000, CurrencyCode = ''USD''\<rparr>)
     = (\<lparr>Units = 0, Nanos = 0, CurrencyCode = ''USD''\<rparr>, None)"
proof -
  have valid: "IsValid \<lparr>Units = - 5, Nanos = - 910000000, CurrencyCode = ''USD''\<rparr>"
    by (simp add: IsValid_sint)
  show ?thesis
    using valid Sum_Negate [OF valid] by simp
qed

section \<open>What \<open>DivideInt\<close> computes\<close>

text \<open>
  Claim C4, as stated: \<open>DivideInt(m, n)\<close> starts from \<open>Negate(m)\<close>, adds \<open>m\<close> while the
  count exceeds 1, and the value of its result is \<open>1 - n\<close> times the value of \<open>m\<close>. The
  factor is wrong: for \<open>m = {1, 500000000}\<close> and \<open>n = 3\<close> the loop runs twice and the
  result is \<open>m\<close> itself, not \<open>-2\<close> times \<open>m\<close>, and for \<open>n = 1\<close> the result is
  \<open>Negate(m)\<close>, not zero.
\<close>

theorem DivideInt_value_counterexample:
  "DivideInt \<lparr>Units = 1, Nanos = 500000000, CurrencyCode = ''''\<rparr> 3
     = Inr \<lparr>Units = 1, Nanos = 500000000, CurrencyCode = ''''\<rparr> \<and>
   nanos_value \<lparr>Units = 1, Nanos = 500000000, CurrencyCode = ''''\<rparr>
     \<noteq> (1 - int (unat (3 :: uint32)))
         * nanos_value \<lparr>Units = 1, Nanos = 500000000, CurrencyCode = ''''\<rparr> \<and>
   DivideInt \<lparr>Units = 1, Nanos = 500000000, CurrencyCode = ''''\<rparr> 1
     = Inr \<lparr>Units = - 1, Nanos = - 500000000, CurrencyCode = ''''\<rparr> \<and>
   nanos_value \<lparr>Units = - 1, Nanos = - 500000000, CurrencyCode = ''''\<rparr>
     \<noteq> (1 - int (unat (1 :: uint32)))
         * nanos_value \<lparr>Units = 1, Nanos = 500000000, CurrencyCode = ''''\<rparr>"
proof -
  have "DivideInt \<lparr>Units = 1, Nanos = 500000000, CurrencyCode = ''''\<rparr> 1
          = Inr \<lparr>Units = - 1, Nanos = - 500000000, CurrencyCode = ''''\<rparr>"
    by (simp add: DivideInt_def DivideInt_loop_stop Negate_def)
  then show ?thesis
    using DivideInt_3 by (simp add: nanos_value_def)
qed

text \<open>
  Claim C4, amended. \<open>DivideInt(m, n)\<close> returns \<open>Negate(m)\<close> for the counts 0 and 1, and
  for every further count it adds \<open>m\<close> once more to the result of the count before
  (panicking if that addition fails): \<open>n - 1\<close> additions for \<open>n \<ge> 1\<close>. So for \<open>n \<ge> 1\<close>,
  whenever it returns a value whose nanos are within the range of \<open>validNanos\<close> (as
  those of every valid value are), that value is \<open>n - 2\<close> times the value of \<open>m\<close>, up
  to the wrap-around of the 64-bit units (a multiple of \<open>2 ^ 64\<close> units); it is
  not \<open>1 - n\<close> times the value of \<open>m\<close>, and not \<open>m\<close> divided by \<open>n\<close>.
\<close>

theorem DivideInt_value:
  "DivideInt m 0 = Inr (Negate m) \<and> DivideInt m 1 = Inr (Negate m) \<and>
   (1 \<le> n \<and> n + 1 \<noteq> 0 \<longrightarrow>
      DivideInt m (n + 1)
        = (case DivideInt m n of Inl p \<Rightarrow> Inl p | Inr acc \<Rightarrow> Must (Sum acc m))) \<and>
   (1 \<le> n \<and> DivideInt m n = Inr out \<and> validNanos (Nanos out) \<longrightarrow>
      nanos_value out mod (2 ^ 64 * 1000000000)
        = ((int (unat n) - 2) * nanos_value m) mod (2 ^ 64 * 1000000000))"
proof (intro conjI impI)
  show "DivideInt m 0 = Inr (Negate m)" "DivideInt m 1 = Inr (Negate m)"
    by (simp_all add: DivideInt_def DivideInt_loop_stop)
next
  assume "1 \<le> n \<and> n + 1 \<noteq> 0"
  then show "DivideInt m (n + 1)
               = (case DivideInt m n of Inl p \<Rightarrow> Inl p | Inr acc \<Rightarrow> Must (Sum acc m))"
    by (simp add: DivideInt_def DivideInt_loop_snoc)
next
  assume a: "1 \<le> n \<and> DivideInt m n = Inr out \<and> validNanos (Nanos out)"
  then have loop: "DivideInt_loop (Negate m) m n = Inr out" and out: "validNanos (Nanos out)"
    by (simp_all add: DivideInt_def)
  have "validNanos (Nanos (Negate m))"
    using DivideInt_loop_valid_acc [OF loop out] .
  then have "(nanos_value (Negate m) + int (unat n - 1) * nanos_value m) mod (2 ^ 64 * 1000000000)
               = (- nanos_value m + int (unat n - 1) * nanos_value m) mod (2 ^ 64 * 1000000000)"
    by (intro mod_add_cong nanos_value_Negate refl)
  moreover have "1 \<le> unat n"
    using a by (simp add: word_le_nat_alt)
  then have "- nanos_value m + int (unat n - 1) * nanos_value m
               = (int (unat n) - 2) * nanos_value m"
    by (simp add: algebra_simps)
  ultimately show "nanos_value out mod (2 ^ 64 * 1000000000)
                     = ((int (unat n) - 2) * nanos_value m) mod (2 ^ 64 * 1000000000)"
    using DivideInt_loop_value [OF loop out] by simp
qed

theorem DivideInt_value_witness:
  "(1 :: uint32) \<le> 4 \<and> (4 :: uint32) + 1 \<noteq> 0 \<and>
   DivideInt \<lparr>Units = 1, Nanos = 500000000, CurrencyCode = ''''\<rparr> 4
     = Inr \<lparr>Units = 3, Nanos = 0, CurrencyCode = ''''\<rparr> \<and>
   validNanos (Nanos \<lparr>Units = 3, Nanos = 0, CurrencyCode = ''''\<rparr>) \<and>
   DivideInt \<lparr>Units = 1, Nanos = 500000000, CurrencyCode = ''''\<rparr> (4 + 1)
     = Must (Sum \<lparr>Units = 3, Nanos = 0, CurrencyCode = ''''\<rparr>
                 \<lparr>Units = 1, Nanos = 500000000, CurrencyCode = ''''\<rparr>) \<and>
   nanos_value \<lparr>Units = 3, Nanos = 0, CurrencyCode = ''''\<rparr> mod (2 ^ 64 * 1000000000)
     = ((int (unat (4 :: uint32)) - 2)
          * nanos_value \<lparr>Units = 1, Nanos = 500000000, CurrencyCode = ''''\<rparr>)
       mod (2 ^ 64 * 1000000000)"
proof -
  have range: "validNanos (Nanos \<lparr>Units = 3, Nanos = 0, CurrencyCode = ''''\<rparr>)"
    by (simp add: validNanos_sint)
  show ?thesis
    using DivideInt_value [of "\<lparr>Units = 1, Nanos = 500000000, CurrencyCode = ''''\<rparr>" 4
            "\<lparr>Units = 3, Nanos = 0, CurrencyCode = ''''\<rparr>"]
          range DivideInt_4
    by simp
qed

end
